theory Spec2Isabelle
  imports Main
begin

section \<open>The driver online-gating flow\<close>

text \<open>
  The development embeds the driver-side geolocation gate of the client: the
  \<^verbatim>\<open>DriverDashboard\<close> page component, the \<^verbatim>\<open>LocationPermissionModal\<close> component it
  renders, and the \<^verbatim>\<open>logout\<close> and \<^verbatim>\<open>login\<close> functions of the authentication context.
  The browser is single threaded: every handler of the source runs to completion, so
  each handler is a function from the state before it to the state after it, and the
  asynchronous operations (position requests, HTTP calls, timers) are queues of pending
  continuations whose completions are events that may arrive in any order.
\<close>

subsection \<open>Values of the device and of the page\<close>

text \<open>
  A position as the device reports it (\<^verbatim>\<open>position.coords\<close> and the time stamp) and the
  location object the source builds from it. The type of a coordinate is a parameter:
  the source never computes with coordinates.
\<close>

record 'c position =
  latitude :: 'c
  longitude :: 'c
  accuracy :: 'c
  timestamp :: nat

record 'c location =
  lat :: 'c
  lng :: 'c

text \<open>The three codes of a \<^verbatim>\<open>GeolocationPositionError\<close>.\<close>

datatype geo_error = PERMISSION_DENIED | POSITION_UNAVAILABLE | TIMEOUT

text \<open>The third argument of \<^verbatim>\<open>getCurrentPosition\<close>; times are in milliseconds.\<close>

record position_options =
  enableHighAccuracy :: bool
  timeout :: nat
  maximumAge :: nat

text \<open>The \<^verbatim>\<open>permissionState\<close> of the modal.\<close>

datatype permission_state = Requesting | Granted | Denied | PermissionError

datatype toast = ToastSuccess string | ToastError string

text \<open>
  The value of \<^verbatim>\<open>user?.id\<close>: \<open>None\<close> is \<^verbatim>\<open>undefined\<close> (no user, or a user without an
  id); an id is a non-negative integer or a string.
\<close>

datatype user_id = NumId nat | StrId string

text \<open>
  The success and error callbacks passed to one \<^verbatim>\<open>getCurrentPosition\<close> call, named by
  the call site, with the variables the closures capture: the silent probe of the gate
  captures \<^verbatim>\<open>timeDiff\<close>, a periodic probe captures the \<^verbatim>\<open>interval\<close> handle of its timer,
  and a probe of the modal captures the \<^verbatim>\<open>permissionState\<close> of the render that issued it
  (through \<^verbatim>\<open>sendLocationUpdate\<close>).
\<close>

datatype request =
    SilentProbe int
  | FullProbe
  | PeriodicProbe nat
  | ModalProbe permission_state

text \<open>What the component returns: one of its three \<^verbatim>\<open>return\<close> statements. The
  argument is the \<^verbatim>\<open>isOpen\<close> property handed to the modal.\<close>

datatype view = Spinner | BlockedPage bool | Content bool

subsection \<open>Strings of the runtime\<close>

text \<open>Decimal rendering of a non-negative integer (\<^verbatim>\<open>toString\<close>, template literals).\<close>

fun show_nat :: "nat \<Rightarrow> string" where
  "show_nat n =
     (if n < 10 then [char_of (48 + n)]
      else show_nat (n div 10) @ [char_of (48 + n mod 10)])"

declare show_nat.simps [simp del]

text \<open>
  \<^verbatim>\<open>parseInt\<close> with no radix argument: leading white space is skipped, a sign is read,
  a \<^verbatim>\<open>0x\<close> prefix selects radix 16, the longest prefix of digits is the value, and
  \<open>None\<close> is \<^verbatim>\<open>NaN\<close> (no digit at all). Characters are those below 256, and the
  value is the exact integer (the times the page stores are far below \<open>2 ^ 53\<close>).
\<close>

definition js_whitespace :: "char \<Rightarrow> bool" where
  "js_whitespace c =
     (c \<in> set [CHR 0x20, CHR 0x09, CHR 0x0A, CHR 0x0B, CHR 0x0C, CHR 0x0D, CHR 0xA0])"

definition digit_of :: "char \<Rightarrow> nat option" where
  "digit_of c =
     (let n = (of_char c :: nat) in
      if 48 \<le> n \<and> n \<le> 57 then Some (n - 48)
      else if 97 \<le> n \<and> n \<le> 122 then Some (n - 87)
      else if 65 \<le> n \<and> n \<le> 90 then Some (n - 55)
      else None)"

definition radix_digit :: "nat \<Rightarrow> char \<Rightarrow> nat option" where
  "radix_digit r c =
     (case digit_of c of
        None \<Rightarrow> None
      | Some d \<Rightarrow> if d < r then Some d else None)"

definition digits_value :: "nat \<Rightarrow> string \<Rightarrow> nat" where
  "digits_value r ds = foldl (\<lambda>a c. a * r + the (radix_digit r c)) 0 ds"

definition parseInt :: "string \<Rightarrow> int option" where
  "parseInt s =
     (let s1 = dropWhile js_whitespace s;
          neg = (take 1 s1 = ''-'');
          s2 = (if take 1 s1 = ''-'' \<or> take 1 s1 = ''+'' then drop 1 s1 else s1);
          hex = (take 2 s2 = ''0x'' \<or> take 2 s2 = ''0X'');
          r = (if hex then 16 else 10);
          s3 = (if hex then drop 2 s2 else s2);
          ds = takeWhile (\<lambda>c. radix_digit r c \<noteq> None) s3
      in if ds = [] then None
         else Some ((if neg then - 1 else 1) * int (digits_value r ds)))"

text \<open>The two keys of the consent record of a user, and the template literal's
  rendering of \<^verbatim>\<open>user?.id\<close>.\<close>

fun id_text :: "user_id option \<Rightarrow> string" where
  "id_text None = ''undefined''"
| "id_text (Some (NumId n)) = show_nat n"
| "id_text (Some (StrId s)) = s"

definition userLocationKey :: "user_id option \<Rightarrow> string" where
  "userLocationKey u = ''driverLocationPermission_'' @ id_text u"

definition userLocationTimeKey :: "user_id option \<Rightarrow> string" where
  "userLocationTimeKey u = ''driverLocationPermissionTime_'' @ id_text u"

text \<open>Truthiness of \<^verbatim>\<open>user?.id\<close>, as \<^verbatim>\<open>logout\<close> tests it.\<close>

fun truthy_id :: "user_id option \<Rightarrow> bool" where
  "truthy_id None = False"
| "truthy_id (Some (NumId n)) = (n \<noteq> 0)"
| "truthy_id (Some (StrId s)) = (s \<noteq> [])"

definition sevenDays :: int where
  "sevenDays = 7 * 24 * 60 * 60 * 1000"

definition oneHour :: int where
  "oneHour = 60 * 60 * 1000"

subsection \<open>The state\<close>

text \<open>
  One record holds what the handlers read and write.
  \<^item> The runtime: the cells \<^verbatim>\<open>user\<close> and \<^verbatim>\<open>token\<close> of the authentication context
    (\<open>authUser\<close>, the id of the user, and \<open>token\<close>), whether \<^verbatim>\<open>navigator\<close> has
    \<^verbatim>\<open>geolocation\<close>, the clock read by \<^verbatim>\<open>Date.now()\<close> (an integer number of
    milliseconds), and \<^verbatim>\<open>localStorage\<close>.
  \<^item> The constant \<^verbatim>\<open>user\<close> of the mounted dashboard (\<open>user\<close>): the id of the user the
    dashboard read from the context when it mounted. The callbacks of the dashboard are
    closures over it (and over the keys computed from it), so they keep it when the
    context's cell changes: \<^verbatim>\<open>logout\<close> and \<^verbatim>\<open>login\<close> write \<open>authUser\<close>, never \<open>user\<close>.
  \<^item> The window: the global \<^verbatim>\<open>window.driverLocationInterval\<close>, the intervals the
    browser has scheduled and not cleared, and the next handle \<^verbatim>\<open>setInterval\<close> returns.
    Handles are positive numbers in a browser, so a stored handle is always truthy:
    the test \<^verbatim>\<open>if (window.driverLocationInterval)\<close> is the test for \<open>Some\<close>.
  \<^item> Operations in flight: position requests, the \<^verbatim>\<open>POST\<close> the modal awaits (with the
    \<^verbatim>\<open>permissionState\<close> its closure captured), the modal's retry timeouts, the
    dashboard fetches, the manual updates and the order actions awaiting their response.
  \<^item> What leaves the page: the bodies of \<^verbatim>\<open>POST /driver/location\<close> in the order sent,
    the toasts and the console lines.
  \<^item> The \<^verbatim>\<open>useState\<close> cells of \<^verbatim>\<open>DriverDashboard\<close> and of the modal. The order lists,
    statistics and the modal's \<^verbatim>\<open>locationStatus\<close>, \<^verbatim>\<open>errorMessage\<close> and
    \<^verbatim>\<open>retryCount\<close> only feed the markup and are left out.
\<close>

record 'c state =
  authUser :: "user_id option"
  token :: "string option"
  user :: "user_id option"
  hasGeolocation :: bool
  clock :: nat
  storage :: "string \<rightharpoonup> string"
  driverLocationInterval :: "nat option"
  activeTimers :: "nat list"
  nextTimer :: nat
  pendingGeo :: "(request \<times> position_options) list"
  pendingModalPost :: "(permission_state \<times> 'c location) list"
  pendingRetry :: "permission_state list"
  pendingFetch :: nat
  pendingUpdate :: nat
  pendingOrderAction :: nat
  posts :: "'c location list"
  toasts :: "toast list"
  console :: "string list"
  mounted :: bool
  loading :: bool
  locationLoading :: bool
  currentLocation :: "'c location option"
  showLocationModal :: bool
  locationPermissionGranted :: bool
  dashboardBlocked :: bool
  permissionCheckComplete :: bool
  fetchesStarted :: nat
  permissionState :: permission_state
  modalLocation :: "'c location option"

subsection \<open>Primitive effects\<close>

definition setItem :: "string \<Rightarrow> string \<Rightarrow> 'c state \<Rightarrow> 'c state" where
  "setItem k v s = s\<lparr>storage := (storage s)(k \<mapsto> v)\<rparr>"

definition removeItem :: "string \<Rightarrow> 'c state \<Rightarrow> 'c state" where
  "removeItem k s = s\<lparr>storage := (storage s)(k := None)\<rparr>"

definition toast_success :: "string \<Rightarrow> 'c state \<Rightarrow> 'c state" where
  "toast_success m s = s\<lparr>toasts := toasts s @ [ToastSuccess m]\<rparr>"

definition toast_error :: "string \<Rightarrow> 'c state \<Rightarrow> 'c state" where
  "toast_error m s = s\<lparr>toasts := toasts s @ [ToastError m]\<rparr>"

definition console_log :: "string \<Rightarrow> 'c state \<Rightarrow> 'c state" where
  "console_log m s = s\<lparr>console := console s @ [m]\<rparr>"

text \<open>\<^verbatim>\<open>navigator.geolocation.getCurrentPosition\<close>: the request is queued with its callbacks.\<close>

definition getCurrentPosition ::
  "request \<Rightarrow> position_options \<Rightarrow> 'c state \<Rightarrow> 'c state" where
  "getCurrentPosition r opts s = s\<lparr>pendingGeo := pendingGeo s @ [(r, opts)]\<rparr>"

definition clearInterval :: "nat \<Rightarrow> 'c state \<Rightarrow> 'c state" where
  "clearInterval i s = s\<lparr>activeTimers := removeAll i (activeTimers s)\<rparr>"

text \<open>The object \<^verbatim>\<open>{ lat: position.coords.latitude, lng: position.coords.longitude }\<close>.\<close>

definition location_of :: "'c position \<Rightarrow> 'c location" where
  "location_of p = \<lparr>lat = latitude p, lng = longitude p\<rparr>"

definition silentOptions :: position_options where
  "silentOptions = \<lparr>enableHighAccuracy = True, timeout = 5000, maximumAge = 300000\<rparr>"

definition firstTimeOptions :: position_options where
  "firstTimeOptions = \<lparr>enableHighAccuracy = False, timeout = 8000, maximumAge = 300000\<rparr>"

definition periodicOptions :: position_options where
  "periodicOptions = \<lparr>enableHighAccuracy = True, timeout = 8000, maximumAge = 30000\<rparr>"

definition modalOptions :: position_options where
  "modalOptions = \<lparr>enableHighAccuracy = True, timeout = 10000, maximumAge = 60000\<rparr>"

subsection \<open>The functions of \<^verbatim>\<open>DriverDashboard\<close>\<close>

text \<open>
  \<^verbatim>\<open>sendLocationUpdate\<close>: the body of the \<^verbatim>\<open>POST\<close> is a new object with the two fields of
  the argument. The argument can be \<^verbatim>\<open>null\<close> (the modal's button passes its own
  \<^verbatim>\<open>currentLocation\<close> cell); reading \<^verbatim>\<open>location.lat\<close> then throws inside the \<^verbatim>\<open>try\<close>
  and the \<^verbatim>\<open>catch\<close> logs. The response is awaited only to log a failure.
\<close>

definition sendLocationUpdate :: "'c location option \<Rightarrow> 'c state \<Rightarrow> 'c state" where
  "sendLocationUpdate l s =
     (case l of
        None \<Rightarrow> console_log ''Failed to update location:'' s
      | Some loc \<Rightarrow> s\<lparr>posts := posts s @ [\<lparr>lat = lat loc, lng = lng loc\<rparr>]\<rparr>)"

text \<open>
  \<^verbatim>\<open>startLiveLocationTracking\<close>: push the initial location, schedule a new interval and
  store its handle in the global. Nothing is cleared first.
\<close>

definition startLiveLocationTracking :: "'c location option \<Rightarrow> 'c state \<Rightarrow> 'c state" where
  "startLiveLocationTracking l s =
     (sendLocationUpdate l s)
       \<lparr>activeTimers := activeTimers s @ [nextTimer s],
        nextTimer := Suc (nextTimer s),
        driverLocationInterval := Some (nextTimer s)\<rparr>"

text \<open>The body of the interval's function: one position request per tick.\<close>

definition intervalTick :: "nat \<Rightarrow> 'c state \<Rightarrow> 'c state" where
  "intervalTick interval s = getCurrentPosition (PeriodicProbe interval) periodicOptions s"

definition periodicSuccess :: "'c position \<Rightarrow> 'c state \<Rightarrow> 'c state" where
  "periodicSuccess p s =
     sendLocationUpdate (Some (location_of p)) (s\<lparr>currentLocation := Some (location_of p)\<rparr>)"

definition periodicError :: "geo_error \<Rightarrow> nat \<Rightarrow> 'c state \<Rightarrow> 'c state" where
  "periodicError err interval s =
     (let s1 = console_log ''Live location tracking error:'' s in
      if err = PERMISSION_DENIED then
        (toast_error ''Location access was disabled. Please re-enable to stay online.''
          ((clearInterval interval
             (removeItem (userLocationTimeKey (user s))
               (removeItem (userLocationKey (user s)) s1)))
            \<lparr>showLocationModal := True,
             locationPermissionGranted := False,
             dashboardBlocked := True\<rparr>))
      else s1)"

text \<open>
  The two nested tests of \<^verbatim>\<open>checkLocationPermissionStatus\<close>:
  \<^verbatim>\<open>storedPermission === 'granted' && lastPermissionCheck\<close>, then
  \<^verbatim>\<open>timeDiff < sevenDays\<close> with \<^verbatim>\<open>timeDiff = Date.now() - parseInt(lastPermissionCheck)\<close>.
  The result is \<^verbatim>\<open>timeDiff\<close> when both hold. An empty string is falsy, and a comparison
  with \<^verbatim>\<open>NaN\<close> is false.
\<close>

definition recentGrant :: "'c state \<Rightarrow> int option" where
  "recentGrant s =
     (case storage s (userLocationTimeKey (user s)) of
        None \<Rightarrow> None
      | Some lastPermissionCheck \<Rightarrow>
          if storage s (userLocationKey (user s)) = Some ''granted'' \<and> lastPermissionCheck \<noteq> []
          then (case parseInt lastPermissionCheck of
                  None \<Rightarrow> None
                | Some t \<Rightarrow>
                    if int (clock s) - t < sevenDays then Some (int (clock s) - t) else None)
          else None)"

text \<open>
  \<^verbatim>\<open>checkLocationPermissionStatus\<close>, up to its return: either the early return for a
  runtime without geolocation, or one position request. The \<^verbatim>\<open>catch\<close> branch is for an
  exception of \<^verbatim>\<open>localStorage\<close> or of the request call; the model has none.
\<close>

definition checkLocationPermissionStatus :: "'c state \<Rightarrow> 'c state" where
  "checkLocationPermissionStatus s =
     (if \<not> hasGeolocation s then
        (toast_error ''Your browser does not support location services'' s)
          \<lparr>showLocationModal := True, permissionCheckComplete := True\<rparr>
      else
        (case recentGrant s of
           Some timeDiff \<Rightarrow> getCurrentPosition (SilentProbe timeDiff) silentOptions s
         | None \<Rightarrow> getCurrentPosition FullProbe firstTimeOptions s))"

definition silentSuccess :: "int \<Rightarrow> 'c position \<Rightarrow> 'c state \<Rightarrow> 'c state" where
  "silentSuccess timeDiff p s =
     (let s1 = startLiveLocationTracking (Some (location_of p))
                 (s\<lparr>currentLocation := Some (location_of p),
                    locationPermissionGranted := True,
                    dashboardBlocked := False,
                    permissionCheckComplete := True\<rparr>)
      in if timeDiff > oneHour
         then toast_success ''Welcome back! Location tracking resumed.'' s1
         else s1)"

definition silentError :: "'c state \<Rightarrow> 'c state" where
  "silentError s =
     (removeItem (userLocationTimeKey (user s))
        (removeItem (userLocationKey (user s))
          (console_log ''Stored permission no longer valid:'' s)))
       \<lparr>showLocationModal := True,
        locationPermissionGranted := False,
        dashboardBlocked := True,
        permissionCheckComplete := True\<rparr>"

definition fullSuccess :: "'c position \<Rightarrow> 'c state \<Rightarrow> 'c state" where
  "fullSuccess p s =
     toast_success ''Location access enabled! You are now online.''
       (startLiveLocationTracking (Some (location_of p))
         ((setItem (userLocationTimeKey (user s)) (show_nat (clock s))
            (setItem (userLocationKey (user s)) ''granted'' s))
           \<lparr>currentLocation := Some (location_of p),
            locationPermissionGranted := True,
            dashboardBlocked := False,
            permissionCheckComplete := True\<rparr>))"

definition fullError :: "'c state \<Rightarrow> 'c state" where
  "fullError s =
     (setItem (userLocationKey (user s)) ''denied''
        (console_log ''Location permission check failed:'' s))
       \<lparr>showLocationModal := True,
        locationPermissionGranted := False,
        dashboardBlocked := True,
        permissionCheckComplete := True\<rparr>"

definition handleLocationEnabled :: "'c location option \<Rightarrow> 'c state \<Rightarrow> 'c state" where
  "handleLocationEnabled l s =
     toast_success ''Welcome! You are now online and ready to receive orders.''
       (startLiveLocationTracking l
         ((setItem (userLocationTimeKey (user s)) (show_nat (clock s))
            (setItem (userLocationKey (user s)) ''granted'' s))
           \<lparr>currentLocation := l,
            locationPermissionGranted := True,
            dashboardBlocked := False,
            showLocationModal := False,
            permissionCheckComplete := True\<rparr>))"

text \<open>\<^verbatim>\<open>fetchDashboardData\<close>: the four requests start; the \<^verbatim>\<open>finally\<close> block of their
  completion clears \<^verbatim>\<open>loading\<close> whether they succeeded or not.\<close>

definition fetchDashboardData :: "'c state \<Rightarrow> 'c state" where
  "fetchDashboardData s =
     s\<lparr>fetchesStarted := Suc (fetchesStarted s), pendingFetch := Suc (pendingFetch s)\<rparr>"

definition fetchDashboardDataDone :: "bool \<Rightarrow> 'c state \<Rightarrow> 'c state" where
  "fetchDashboardDataDone ok s =
     (if ok then s
      else console_log ''Dashboard error:'' (toast_error ''Failed to load dashboard data'' s))
       \<lparr>loading := False, pendingFetch := pendingFetch s - 1\<rparr>"

text \<open>The cleanup function of the last effect, run when the component unmounts.
  (\<^verbatim>\<open>getCurrentLocation\<close>, defined before it in the source, is called nowhere.)\<close>

definition unmountCleanup :: "'c state \<Rightarrow> 'c state" where
  "unmountCleanup s =
     (case driverLocationInterval s of
        None \<Rightarrow> s
      | Some i \<Rightarrow> (clearInterval i s)\<lparr>driverLocationInterval := None\<rparr>)"

text \<open>\<^verbatim>\<open>updateLocation\<close>, the handler of the "Update Location" button, up to its
  \<^verbatim>\<open>await\<close>, and its continuation.\<close>

definition updateLocation :: "'c state \<Rightarrow> 'c state" where
  "updateLocation s =
     (case currentLocation s of
        None \<Rightarrow> toast_error ''Location not available. Please enable location services.'' s
      | Some loc \<Rightarrow>
          s\<lparr>locationLoading := True,
            posts := posts s @ [\<lparr>lat = lat loc, lng = lng loc\<rparr>],
            pendingUpdate := Suc (pendingUpdate s)\<rparr>)"

definition updateLocationDone :: "bool \<Rightarrow> 'c state \<Rightarrow> 'c state" where
  "updateLocationDone ok s =
     (if ok then toast_success ''Location updated successfully!'' s
      else toast_error ''Failed to update location'' s)
       \<lparr>locationLoading := False, pendingUpdate := pendingUpdate s - 1\<rparr>"

text \<open>\<^verbatim>\<open>acceptOrder\<close>, \<^verbatim>\<open>acceptOrderRequest\<close> and \<^verbatim>\<open>rejectOrderRequest\<close>: a request, and on
  its success a toast and a refresh of the dashboard data. The three differ in the
  path requested and the text of the toast only; the texts are those of the first.\<close>

definition orderAction :: "'c state \<Rightarrow> 'c state" where
  "orderAction s = s\<lparr>pendingOrderAction := Suc (pendingOrderAction s)\<rparr>"

definition orderActionDone :: "bool \<Rightarrow> 'c state \<Rightarrow> 'c state" where
  "orderActionDone ok s =
     (if ok then fetchDashboardData (toast_success ''Order accepted successfully!'' s)
      else toast_error ''Failed to accept order'' s)
       \<lparr>pendingOrderAction := pendingOrderAction s - 1\<rparr>"

text \<open>The three \<^verbatim>\<open>return\<close> statements of the component.\<close>

definition render :: "'c state \<Rightarrow> view" where
  "render s =
     (if loading s \<or> \<not> permissionCheckComplete s then Spinner
      else if dashboardBlocked s then BlockedPage (showLocationModal s)
      else Content (showLocationModal s))"

subsection \<open>The functions of \<^verbatim>\<open>LocationPermissionModal\<close>\<close>

text \<open>
  Every function of the modal is a closure of one render. \<^verbatim>\<open>requestLocationPermission\<close>
  passes a success callback that calls \<^verbatim>\<open>sendLocationUpdate\<close> of the same render, which
  reads the \<^verbatim>\<open>permissionState\<close> of that render after its \<^verbatim>\<open>await\<close>: the argument
  \<open>captured\<close> is that value.
\<close>

definition requestLocationPermission :: "permission_state \<Rightarrow> 'c state \<Rightarrow> 'c state" where
  "requestLocationPermission captured s = getCurrentPosition (ModalProbe captured) modalOptions s"

definition modalSendLocationUpdate ::
  "permission_state \<Rightarrow> 'c location \<Rightarrow> 'c state \<Rightarrow> 'c state" where
  "modalSendLocationUpdate captured loc s =
     s\<lparr>posts := posts s @ [\<lparr>lat = lat loc, lng = lng loc\<rparr>],
       pendingModalPost := pendingModalPost s @ [(captured, loc)]\<rparr>"

definition modalSendLocationUpdateDone ::
  "permission_state \<Rightarrow> 'c location \<Rightarrow> bool \<Rightarrow> 'c state \<Rightarrow> 'c state" where
  "modalSendLocationUpdateDone captured loc ok s =
     (if ok then
        (if captured = Granted then handleLocationEnabled (Some loc) s else s)
      else console_log ''Failed to update location:'' s)"

definition modalSuccess :: "permission_state \<Rightarrow> 'c position \<Rightarrow> 'c state \<Rightarrow> 'c state" where
  "modalSuccess captured p s =
     toast_success ''Location access granted! You are now online.''
       (modalSendLocationUpdate captured (location_of p)
         (s\<lparr>modalLocation := Some (location_of p), permissionState := Granted\<rparr>))"

definition handleLocationError :: "geo_error \<Rightarrow> 'c state \<Rightarrow> 'c state" where
  "handleLocationError err s =
     (case err of
        PERMISSION_DENIED \<Rightarrow> s\<lparr>permissionState := Denied\<rparr>
      | POSITION_UNAVAILABLE \<Rightarrow> s\<lparr>permissionState := PermissionError\<rparr>
      | TIMEOUT \<Rightarrow> s\<lparr>permissionState := PermissionError\<rparr>)"

text \<open>\<^verbatim>\<open>retryLocationRequest\<close>: the timeout it sets calls the
  \<^verbatim>\<open>requestLocationPermission\<close> of the render in which the button was pressed.\<close>

definition retryLocationRequest :: "'c state \<Rightarrow> 'c state" where
  "retryLocationRequest s =
     s\<lparr>permissionState := Requesting, pendingRetry := pendingRetry s @ [permissionState s]\<rparr>"

definition openBrowserSettings :: "'c state \<Rightarrow> 'c state" where
  "openBrowserSettings s =
     toast_error
       ''Please manually enable location permissions in your browser settings and refresh the page.''
       s"

text \<open>The modal's effect, with dependencies \<^verbatim>\<open>[isOpen, isGeolocationSupported]\<close>.\<close>

definition modalEffect :: "'c state \<Rightarrow> 'c state" where
  "modalEffect s =
     (if showLocationModal s \<and> hasGeolocation s then requestLocationPermission (permissionState s) s
      else if showLocationModal s \<and> \<not> hasGeolocation s then s\<lparr>permissionState := PermissionError\<rparr>
      else s)"

subsection \<open>Rendering and effects\<close>

text \<open>
  The modal is an element of the second and third \<^verbatim>\<open>return\<close>, at the same place of the
  tree, so React keeps its state between them; under the spinner it is not in the tree.
  After a handler has run, React renders once with the new state and runs the effects
  whose dependencies changed: the dashboard's effect on \<^verbatim>\<open>locationPermissionGranted\<close>,
  and the modal's effect when the modal enters the tree or its \<^verbatim>\<open>isOpen\<close> changes. A modal
  entering the tree starts from its initial \<^verbatim>\<open>useState\<close> values. An unmounted component
  renders nothing and runs no effect; its cells no longer exist, and the model goes on
  updating them where a late callback sets them, which nothing observes.
\<close>

definition modalPresent :: "'c state \<Rightarrow> bool" where
  "modalPresent s = (mounted s \<and> render s \<noteq> Spinner)"

definition dashboardEffect :: "'c state \<Rightarrow> 'c state \<Rightarrow> 'c state" where
  "dashboardEffect old new =
     (if locationPermissionGranted new \<and> \<not> locationPermissionGranted old
      then fetchDashboardData new else new)"

definition modalLifecycle :: "'c state \<Rightarrow> 'c state \<Rightarrow> 'c state" where
  "modalLifecycle old new =
     (if modalPresent new then
        (if \<not> modalPresent old
         then modalEffect (new\<lparr>permissionState := Requesting, modalLocation := None\<rparr>)
         else if showLocationModal new \<noteq> showLocationModal old then modalEffect new
         else new)
      else new)"

definition postRender :: "'c state \<Rightarrow> 'c state \<Rightarrow> 'c state" where
  "postRender old new =
     (if mounted new then modalLifecycle old (dashboardEffect old new) else new)"

subsection \<open>Events\<close>

text \<open>
  An event is the completion of a pending operation (chosen by its place in the queue,
  so completions arrive in any order), the firing of a scheduled interval, the passing
  of time, a click on a button the current view shows, or the unmounting of the
  dashboard. \<open>dispatch\<close> is \<open>None\<close> when the event cannot happen in the state.
\<close>

datatype 'c event =
    Advance nat
  | GeoResult nat "geo_error + 'c position"
  | TimerFire nat
  | FetchDone bool
  | UpdateDone bool
  | OrderActionDone bool
  | ModalPostDone nat bool
  | RetryTimeout nat
  | ClickContinue
  | ClickRetry
  | ClickHelp
  | ClickEnableLocation
  | ClickUpdateLocation
  | ClickRefresh
  | ClickOrderAction
  | Unmount

fun geoCallback :: "request \<Rightarrow> geo_error + 'c position \<Rightarrow> 'c state \<Rightarrow> 'c state" where
  "geoCallback (SilentProbe timeDiff) (Inr p) s = silentSuccess timeDiff p s"
| "geoCallback (SilentProbe timeDiff) (Inl err) s = silentError s"
| "geoCallback FullProbe (Inr p) s = fullSuccess p s"
| "geoCallback FullProbe (Inl err) s = fullError s"
| "geoCallback (PeriodicProbe interval) (Inr p) s = periodicSuccess p s"
| "geoCallback (PeriodicProbe interval) (Inl err) s = periodicError err interval s"
| "geoCallback (ModalProbe captured) (Inr p) s = modalSuccess captured p s"
| "geoCallback (ModalProbe captured) (Inl err) s = handleLocationError err s"

definition without :: "nat \<Rightarrow> 'a list \<Rightarrow> 'a list" where
  "without k xs = take k xs @ drop (Suc k) xs"

definition isContent :: "view \<Rightarrow> bool" where
  "isContent v = (case v of Content b \<Rightarrow> True | _ \<Rightarrow> False)"

definition isBlockedPage :: "view \<Rightarrow> bool" where
  "isBlockedPage v = (case v of BlockedPage b \<Rightarrow> True | _ \<Rightarrow> False)"

definition modalFailed :: "'c state \<Rightarrow> bool" where
  "modalFailed s = (permissionState s = Denied \<or> permissionState s = PermissionError)"

fun dispatch :: "'c event \<Rightarrow> 'c state \<Rightarrow> 'c state option" where
  "dispatch (Advance d) s = Some (s\<lparr>clock := clock s + d\<rparr>)"
| "dispatch (GeoResult k r) s =
     (if k < length (pendingGeo s)
      then Some (geoCallback (fst (pendingGeo s ! k)) r
                  (s\<lparr>pendingGeo := without k (pendingGeo s)\<rparr>))
      else None)"
| "dispatch (TimerFire i) s =
     (if i \<in> set (activeTimers s) then Some (intervalTick i s) else None)"
| "dispatch (FetchDone ok) s =
     (if 0 < pendingFetch s then Some (fetchDashboardDataDone ok s) else None)"
| "dispatch (UpdateDone ok) s =
     (if 0 < pendingUpdate s then Some (updateLocationDone ok s) else None)"
| "dispatch (OrderActionDone ok) s =
     (if 0 < pendingOrderAction s then Some (orderActionDone ok s) else None)"
| "dispatch (ModalPostDone k ok) s =
     (if k < length (pendingModalPost s)
      then Some (modalSendLocationUpdateDone
                  (fst (pendingModalPost s ! k)) (snd (pendingModalPost s ! k)) ok
                  (s\<lparr>pendingModalPost := without k (pendingModalPost s)\<rparr>))
      else None)"
| "dispatch (RetryTimeout k) s =
     (if k < length (pendingRetry s)
      then Some (requestLocationPermission (pendingRetry s ! k)
                  (s\<lparr>pendingRetry := without k (pendingRetry s)\<rparr>))
      else None)"
| "dispatch ClickContinue s =
     (if modalPresent s \<and> showLocationModal s \<and> permissionState s = Granted
      then Some (handleLocationEnabled (modalLocation s) s) else None)"
| "dispatch ClickRetry s =
     (if modalPresent s \<and> showLocationModal s \<and> modalFailed s
      then Some (retryLocationRequest s) else None)"
| "dispatch ClickHelp s =
     (if modalPresent s \<and> showLocationModal s \<and> modalFailed s
      then Some (openBrowserSettings s) else None)"
| "dispatch ClickEnableLocation s =
     (if mounted s \<and> isBlockedPage (render s)
      then Some (s\<lparr>showLocationModal := True\<rparr>) else None)"
| "dispatch ClickUpdateLocation s =
     (if mounted s \<and> isContent (render s) \<and> \<not> locationLoading s
      then Some (updateLocation s) else None)"
| "dispatch ClickRefresh s =
     (if mounted s \<and> isContent (render s) then Some (fetchDashboardData s) else None)"
| "dispatch ClickOrderAction s =
     (if mounted s \<and> isContent (render s) then Some (orderAction s) else None)"
| "dispatch Unmount s =
     (if mounted s then Some ((unmountCleanup s)\<lparr>mounted := False\<rparr>) else None)"

definition step :: "'c event \<Rightarrow> 'c state \<Rightarrow> 'c state option" where
  "step e s = map_option (postRender s) (dispatch e s)"

fun run :: "'c event list \<Rightarrow> 'c state \<Rightarrow> 'c state option" where
  "run [] s = Some s"
| "run (e # es) s = (case step e s of None \<Rightarrow> None | Some s' \<Rightarrow> run es s')"

text \<open>
  A freshly loaded page on which user \<open>u\<close> is authenticated: nothing scheduled,
  nothing in flight, and the initial values of the \<^verbatim>\<open>useState\<close> cells. Mounting the dashboard runs its first effect,
  \<^verbatim>\<open>checkLocationPermissionStatus\<close>; the second effect does nothing while
  \<^verbatim>\<open>locationPermissionGranted\<close> is false, and the third only registers the cleanup.
\<close>

definition pageLoad ::
  "user_id option \<Rightarrow> bool \<Rightarrow> nat \<Rightarrow> (string \<rightharpoonup> string) \<Rightarrow> 'c state" where
  "pageLoad u geo now store =
     \<lparr>authUser = u, token = None, user = u, hasGeolocation = geo, clock = now, storage = store,
      driverLocationInterval = None, activeTimers = [], nextTimer = 1,
      pendingGeo = [], pendingModalPost = [], pendingRetry = [],
      pendingFetch = 0, pendingUpdate = 0, pendingOrderAction = 0,
      posts = [], toasts = [], console = [],
      mounted = True, loading = True, locationLoading = False, currentLocation = None,
      showLocationModal = False, locationPermissionGranted = False,
      dashboardBlocked = True, permissionCheckComplete = False,
      fetchesStarted = 0, permissionState = Requesting, modalLocation = None\<rparr>"

definition mountDashboard ::
  "user_id option \<Rightarrow> bool \<Rightarrow> nat \<Rightarrow> (string \<rightharpoonup> string) \<Rightarrow> 'c state" where
  "mountDashboard u geo now store = checkLocationPermissionStatus (pageLoad u geo now store)"

subsection \<open>The authentication context\<close>

text \<open>\<^verbatim>\<open>logout\<close>, statement by statement. The \<^verbatim>\<open>Authorization\<close> header of the HTTP client
  mirrors the token and is left out. Nothing in \<^verbatim>\<open>logout\<close> cancels a position request or
  an HTTP call in flight.\<close>

definition logout :: "'c state \<Rightarrow> 'c state" where
  "logout s =
     (let s1 = (case driverLocationInterval s of
                  None \<Rightarrow> s
                | Some i \<Rightarrow> (clearInterval i s)\<lparr>driverLocationInterval := None\<rparr>);
          s2 = (if truthy_id (authUser s)
                then removeItem (userLocationTimeKey (authUser s))
                       (removeItem (userLocationKey (authUser s)) s1)
                else s1);
          s3 = removeItem ''user''
                 (removeItem ''token'' (s2\<lparr>token := None, authUser := None\<rparr>))
      in removeItem ''driverLocationPermissionTime''
           (removeItem ''driverLocationPermission'' s3))"

text \<open>\<^verbatim>\<open>login\<close> after a successful response carrying \<open>newToken\<close> and a user whose id is
  \<open>newUser\<close> and whose JSON text is \<open>userJson\<close>. A failed response changes nothing.\<close>

definition loginSuccess ::
  "string \<Rightarrow> user_id option \<Rightarrow> string \<Rightarrow> 'c state \<Rightarrow> 'c state" where
  "loginSuccess newToken newUser userJson s =
     (let s1 = setItem ''user'' userJson
                 (setItem ''token'' newToken
                   (s\<lparr>token := Some newToken, authUser := newUser\<rparr>))
      in case storage s1 ''redirectAfterLogin'' of
           None \<Rightarrow> s1
         | Some redirectPath \<Rightarrow>
             if redirectPath \<noteq> [] then removeItem ''redirectAfterLogin'' s1 else s1)"

subsection \<open>The consent record of the specification\<close>

text \<open>
  The specification speaks of a consent record with a status and an age. The status is
  the value stored under \<open>userLocationKey\<close>; the age is the clock minus the time
  stored under \<open>userLocationTimeKey\<close>, and there is none when no time is stored or the
  stored text is not a number.
\<close>

definition consentAge :: "'c state \<Rightarrow> int option" where
  "consentAge s =
     (case storage s (userLocationTimeKey (user s)) of
        None \<Rightarrow> None
      | Some t \<Rightarrow> map_option (\<lambda>g. int (clock s) - g) (parseInt t))"

subsection \<open>Invariants of a session\<close>

text \<open>
  The three gate cells move together: the permission is granted exactly when the
  dashboard is not blocked, an unblocked dashboard has completed its check, and a
  completed check that left the dashboard blocked has opened the modal.
\<close>

definition flagsInv :: "'c state \<Rightarrow> bool" where
  "flagsInv s =
     ((locationPermissionGranted s = (\<not> dashboardBlocked s))
      \<and> (\<not> dashboardBlocked s \<longrightarrow> permissionCheckComplete s)
      \<and> (permissionCheckComplete s \<and> dashboardBlocked s \<longrightarrow> showLocationModal s))"

text \<open>
  An unblocked dashboard has a location in memory, and a modal in its granted state has
  one in its own cell.
\<close>

definition locationInv :: "'c state \<Rightarrow> bool" where
  "locationInv s =
     ((\<not> dashboardBlocked s \<longrightarrow> currentLocation s \<noteq> None)
      \<and> (permissionState s = Granted \<longrightarrow> modalLocation s \<noteq> None))"

text \<open>
  A page starts with handle 1 as the next one, and nothing of the dashboard data is
  requested, awaited or shown before a first interval has been scheduled.
\<close>

definition openedInv :: "'c state \<Rightarrow> bool" where
  "openedInv s =
     (1 \<le> nextTimer s
      \<and> (locationPermissionGranted s \<or> 0 < fetchesStarted s \<or> 0 < pendingFetch s
           \<or> \<not> loading s \<or> 0 < pendingOrderAction s \<longrightarrow> 1 < nextTimer s))"

text \<open>The handles captured by the periodic position requests in flight.\<close>

definition periodicPending :: "'c state \<Rightarrow> nat set" where
  "periodicPending s = {i. \<exists>opts. (PeriodicProbe i, opts) \<in> set (pendingGeo s)}"

text \<open>Every handle in use was returned by \<^verbatim>\<open>setInterval\<close> earlier, after the
  permission check had completed.\<close>

definition timerInv :: "'c state \<Rightarrow> bool" where
  "timerInv s =
     (\<forall>i. i \<in> set (activeTimers s) \<or> i \<in> periodicPending s
            \<or> driverLocationInterval s = Some i
          \<longrightarrow> i < nextTimer s \<and> permissionCheckComplete s)"

text \<open>What one event may do to the timers: handles are fresh, and a handle is issued
  only by a handler that grants the permission.\<close>

definition timersGrow :: "'c state \<Rightarrow> 'c state \<Rightarrow> bool" where
  "timersGrow s s' =
     (nextTimer s \<le> nextTimer s'
      \<and> set (activeTimers s') \<subseteq> set (activeTimers s) \<union> {nextTimer s ..< nextTimer s'}
      \<and> (\<forall>i. driverLocationInterval s' = Some i \<longrightarrow>
             driverLocationInterval s = Some i \<or> (nextTimer s \<le> i \<and> i < nextTimer s'))
      \<and> (permissionCheckComplete s \<longrightarrow> permissionCheckComplete s')
      \<and> (nextTimer s < nextTimer s' \<longrightarrow>
             permissionCheckComplete s' \<and> locationPermissionGranted s'))"

subsection \<open>Sample sessions\<close>

text \<open>
  Concrete sessions on which the theorems are exercised: driver 7 loads the page at
  time 1000 with an empty store on a device with geolocation; the first probe succeeds
  (\<open>openSession\<close>, once the dashboard data has arrived) and the interval fires once
  (\<open>trackingSession\<close>).
\<close>

definition samplePosition :: "int position" where
  "samplePosition = \<lparr>latitude = 3, longitude = 4, accuracy = 1, timestamp = 0\<rparr>"

definition sampleMount :: "int state" where
  "sampleMount = mountDashboard (Some (NumId 7)) True 1000 Map.empty"

definition openSession :: "int state" where
  "openSession = the (run [GeoResult 0 (Inr samplePosition), FetchDone True] sampleMount)"

definition trackingSession :: "int state" where
  "trackingSession =
     the (run [GeoResult 0 (Inr samplePosition), FetchDone True, TimerFire 1] sampleMount)"

definition otherPosition :: "int position" where
  "otherPosition = \<lparr>latitude = 5, longitude = 6, accuracy = 1, timestamp = 9\<rparr>"

text \<open>Two pages about to mount the dashboard with a granted consent stored at time
  1700000000000: ten minutes later, and exactly seven days later.\<close>

definition freshConsentPage :: "int state" where
  "freshConsentPage =
     pageLoad (Some (NumId 7)) True 1700000600000
       [userLocationKey (Some (NumId 7)) \<mapsto> ''granted'',
        userLocationTimeKey (Some (NumId 7)) \<mapsto> ''1700000000000'']"

definition staleConsentPage :: "int state" where
  "staleConsentPage =
     pageLoad (Some (NumId 7)) True 1700604800000
       [userLocationKey (Some (NumId 7)) \<mapsto> ''granted'',
        userLocationTimeKey (Some (NumId 7)) \<mapsto> ''1700000000000'']"

text \<open>
  A session in which the location-enabled handler runs twice for one opening of the
  modal. The gate opens and the data loads (interval 1). A tick is denied: interval 1 is
  cleared and the modal opens; its probe succeeds, and the driver continues (interval
  2). A second tick is denied: interval 2 is cleared and the modal opens again, still in
  its granted state, so the request it issues captures \<open>Granted\<close> and the "Continue to
  Dashboard" button is on screen. The driver presses the button (interval 3); then the
  probe succeeds and, after its \<^verbatim>\<open>POST\<close>, calls the handler once more (interval 4).
\<close>

definition doubleStartTrace :: "int event list" where
  "doubleStartTrace =
     [GeoResult 0 (Inr samplePosition), FetchDone True,
      TimerFire 1, GeoResult 0 (Inl PERMISSION_DENIED),
      GeoResult 0 (Inr samplePosition), ModalPostDone 0 True, ClickContinue,
      TimerFire 2, GeoResult 0 (Inl PERMISSION_DENIED),
      ClickContinue, GeoResult 0 (Inr samplePosition), ModalPostDone 0 True]"

text \<open>
  Driver 7 logs out while the first probe of the sample page is in flight; the
  dashboard is unmounted, and then the probe succeeds.
\<close>

definition logoutDuringProbe :: "int state" where
  "logoutDuringProbe =
     the (run [Unmount, GeoResult 0 (Inr samplePosition)] (logout sampleMount))"

text \<open>A session unmounted while a periodic position request is in flight.\<close>

definition lateCallbackTrace :: "int event list" where
  "lateCallbackTrace =
     [GeoResult 0 (Inr samplePosition), FetchDone True, TimerFire 1, Unmount]"


section \<open>Properties\<close>

subsection \<open>Unfolding and frame lemmas\<close>

lemmas handler_defs =
  setItem_def removeItem_def toast_success_def toast_error_def console_log_def
  getCurrentPosition_def clearInterval_def location_of_def
  sendLocationUpdate_def startLiveLocationTracking_def intervalTick_def periodicSuccess_def
  periodicError_def checkLocationPermissionStatus_def silentSuccess_def
  silentError_def fullSuccess_def fullError_def handleLocationEnabled_def
  fetchDashboardData_def fetchDashboardDataDone_def unmountCleanup_def updateLocation_def
  updateLocationDone_def orderAction_def orderActionDone_def
  requestLocationPermission_def modalSendLocationUpdate_def modalSendLocationUpdateDone_def
  modalSuccess_def handleLocationError_def retryLocationRequest_def openBrowserSettings_def
  modalEffect_def

lemmas render_defs =
  render_def modalPresent_def dashboardEffect_def modalLifecycle_def postRender_def
  isContent_def isBlockedPage_def modalFailed_def

lemma geoCallback_flagsInv:
  "flagsInv s \<Longrightarrow> flagsInv (geoCallback r res (s\<lparr>pendingGeo := q\<rparr>))"
  by (cases r; cases res)
     (simp_all add: flagsInv_def handler_defs Let_def split: geo_error.splits)

lemma dispatch_flagsInv:
  "dispatch e s = Some s' \<Longrightarrow> flagsInv s \<Longrightarrow> flagsInv s'"
proof (cases e)
  case (GeoResult k r)
  then show "dispatch e s = Some s' \<Longrightarrow> flagsInv s \<Longrightarrow> flagsInv s'"
    by (auto simp: geoCallback_flagsInv split: if_splits)
qed (auto simp: flagsInv_def handler_defs split: if_splits option.splits)

lemma postRender_frame:
  "storage (postRender a b) = storage b"
  "activeTimers (postRender a b) = activeTimers b"
  "driverLocationInterval (postRender a b) = driverLocationInterval b"
  "nextTimer (postRender a b) = nextTimer b"
  "posts (postRender a b) = posts b"
  "toasts (postRender a b) = toasts b"
  "console (postRender a b) = console b"
  "dashboardBlocked (postRender a b) = dashboardBlocked b"
  "showLocationModal (postRender a b) = showLocationModal b"
  "locationPermissionGranted (postRender a b) = locationPermissionGranted b"
  "permissionCheckComplete (postRender a b) = permissionCheckComplete b"
  "loading (postRender a b) = loading b"
  "mounted (postRender a b) = mounted b"
  "currentLocation (postRender a b) = currentLocation b"
  "user (postRender a b) = user b"
  "clock (postRender a b) = clock b"
  by (simp_all add: render_defs handler_defs)

lemma postRender_flagsInv: "flagsInv b \<Longrightarrow> flagsInv (postRender a b)"
  by (simp add: flagsInv_def postRender_frame)

lemma step_flagsInv: "step e s = Some s' \<Longrightarrow> flagsInv s \<Longrightarrow> flagsInv s'"
  by (auto simp: step_def dest: dispatch_flagsInv intro: postRender_flagsInv)

lemma mount_flagsInv: "flagsInv (mountDashboard u geo now store)"
  by (simp add: flagsInv_def mountDashboard_def pageLoad_def handler_defs split: option.splits)

lemma run_flagsInv: "run es s = Some s' \<Longrightarrow> flagsInv s \<Longrightarrow> flagsInv s'"
  by (induction es arbitrary: s) (auto split: option.splits dest: step_flagsInv)

lemma content_not_loading: "isContent (render s) \<Longrightarrow> \<not> loading s"
  by (auto simp: render_def isContent_def split: if_splits)

lemma geoCallback_openedInv:
  "openedInv s \<Longrightarrow> openedInv (geoCallback r res (s\<lparr>pendingGeo := q\<rparr>))"
  by (cases r; cases res)
     (auto simp: openedInv_def handler_defs Let_def split: geo_error.splits)

lemma dispatch_openedInv:
  "dispatch e s = Some s' \<Longrightarrow> openedInv s \<Longrightarrow> openedInv s'"
proof (cases e)
  case (GeoResult k r)
  then show "dispatch e s = Some s' \<Longrightarrow> openedInv s \<Longrightarrow> openedInv s'"
    by (auto simp: geoCallback_openedInv split: if_splits)
next
  case ClickRefresh
  then show "dispatch e s = Some s' \<Longrightarrow> openedInv s \<Longrightarrow> openedInv s'"
    by (auto simp: openedInv_def fetchDashboardData_def dest: content_not_loading split: if_splits)
next
  case ClickOrderAction
  then show "dispatch e s = Some s' \<Longrightarrow> openedInv s \<Longrightarrow> openedInv s'"
    by (auto simp: openedInv_def orderAction_def dest: content_not_loading split: if_splits)
next
  case ClickUpdateLocation
  then show "dispatch e s = Some s' \<Longrightarrow> openedInv s \<Longrightarrow> openedInv s'"
    by (auto simp: openedInv_def updateLocation_def toast_error_def split: if_splits option.splits)
next
  case ClickEnableLocation
  then show "dispatch e s = Some s' \<Longrightarrow> openedInv s \<Longrightarrow> openedInv s'"
    by (auto simp: openedInv_def split: if_splits)
qed (auto simp: openedInv_def handler_defs split: if_splits option.splits)

lemma postRender_openedInv: "openedInv b \<Longrightarrow> openedInv (postRender a b)"
  by (auto simp: openedInv_def handler_defs render_defs)

lemma step_openedInv: "step e s = Some s' \<Longrightarrow> openedInv s \<Longrightarrow> openedInv s'"
  by (auto simp: step_def dest: dispatch_openedInv intro: postRender_openedInv)

lemma mount_openedInv: "openedInv (mountDashboard u geo now store)"
  by (simp add: openedInv_def mountDashboard_def pageLoad_def handler_defs split: option.splits)

lemma run_openedInv: "run es s = Some s' \<Longrightarrow> openedInv s \<Longrightarrow> openedInv s'"
  by (induction es arbitrary: s) (auto split: option.splits dest: step_openedInv)

lemma geoCallback_locationInv:
  "locationInv s \<Longrightarrow> locationInv (geoCallback r res (s\<lparr>pendingGeo := q\<rparr>))"
  by (cases r; cases res)
     (simp_all add: locationInv_def handler_defs Let_def split: geo_error.splits)

lemma dispatch_locationInv:
  "dispatch e s = Some s' \<Longrightarrow> locationInv s \<Longrightarrow> locationInv s'"
proof (cases e)
  case (GeoResult k r)
  then show "dispatch e s = Some s' \<Longrightarrow> locationInv s \<Longrightarrow> locationInv s'"
    by (auto simp: geoCallback_locationInv split: if_splits)
qed (auto simp: locationInv_def handler_defs split: if_splits option.splits)

lemma postRender_locationInv: "locationInv b \<Longrightarrow> locationInv (postRender a b)"
  by (auto simp: locationInv_def handler_defs render_defs)

lemma step_locationInv: "step e s = Some s' \<Longrightarrow> locationInv s \<Longrightarrow> locationInv s'"
  by (auto simp: step_def dest: dispatch_locationInv intro: postRender_locationInv)

lemma mount_locationInv: "locationInv (mountDashboard u geo now store)"
  by (simp add: locationInv_def mountDashboard_def pageLoad_def handler_defs split: option.splits)

lemma run_locationInv: "run es s = Some s' \<Longrightarrow> locationInv s \<Longrightarrow> locationInv s'"
  by (induction es arbitrary: s) (auto split: option.splits dest: step_locationInv)

lemma set_without: "set (without k xs) \<subseteq> set xs"
  by (auto simp: without_def dest: in_set_takeD in_set_dropD)

lemma periodicPending_without:
  "periodicPending (s\<lparr>pendingGeo := without k (pendingGeo s)\<rparr>) \<subseteq> periodicPending s"
  using set_without [of k "pendingGeo s"] by (auto simp: periodicPending_def)

lemma periodicPending_simps [simp]:
  "periodicPending (s\<lparr>pendingGeo := pendingGeo s @ [(r, opts)]\<rparr>)
     = (case r of PeriodicProbe i \<Rightarrow> insert i (periodicPending s) | _ \<Rightarrow> periodicPending s)"
  by (auto simp: periodicPending_def split: request.splits)

lemma geoCallback_timersGrow:
  "pendingGeo s0 = pendingGeo s \<Longrightarrow> timersGrow s (geoCallback r res (s\<lparr>pendingGeo := q\<rparr>))"
  by (cases r; cases res)
     (auto simp: timersGrow_def handler_defs Let_def split: geo_error.splits)

lemma geoCallback_pending:
  "periodicPending (geoCallback r res s) = periodicPending s"
  by (cases r; cases res)
     (auto simp: periodicPending_def handler_defs Let_def split: geo_error.splits)

lemma dispatch_timersGrow:
  "dispatch e s = Some s' \<Longrightarrow> timersGrow s s'"
proof (cases e)
  case (GeoResult k r)
  then show "dispatch e s = Some s' \<Longrightarrow> timersGrow s s'"
    using geoCallback_timersGrow [of s s] by (auto split: if_splits)
qed (auto simp: timersGrow_def handler_defs split: if_splits option.splits)

lemma dispatch_pending:
  "dispatch e s = Some s' \<Longrightarrow>
     periodicPending s' \<subseteq> periodicPending s \<union> set (activeTimers s)"
proof (cases e)
  case (GeoResult k r)
  then show "dispatch e s = Some s' \<Longrightarrow>
     periodicPending s' \<subseteq> periodicPending s \<union> set (activeTimers s)"
    using periodicPending_without [of k s] by (auto simp: geoCallback_pending split: if_splits)
next
  case (TimerFire i)
  then show "dispatch e s = Some s' \<Longrightarrow>
     periodicPending s' \<subseteq> periodicPending s \<union> set (activeTimers s)"
    by (auto simp: intervalTick_def getCurrentPosition_def split: if_splits)
qed (auto simp: periodicPending_def handler_defs split: if_splits option.splits)

lemma postRender_pending: "periodicPending (postRender a b) = periodicPending b"
  by (auto simp: periodicPending_def handler_defs render_defs)

lemma postRender_timersGrow: "timersGrow s b \<Longrightarrow> timersGrow s (postRender a b)"
  by (simp add: timersGrow_def postRender_frame)

lemma step_timersGrow: "step e s = Some s' \<Longrightarrow> timersGrow s s'"
  by (auto simp: step_def dest: dispatch_timersGrow intro: postRender_timersGrow)

lemma step_pending:
  assumes "step e s = Some s'"
  shows "periodicPending s' \<subseteq> periodicPending s \<union> set (activeTimers s)"
proof -
  from assms obtain z where z: "dispatch e s = Some z" and s': "s' = postRender s z"
    by (auto simp: step_def)
  from dispatch_pending [OF z] show ?thesis
    by (simp add: s' postRender_pending)
qed

lemma step_timerInv:
  assumes st: "step e s = Some s'" and inv: "timerInv s"
  shows "timerInv s'"
  unfolding timerInv_def
proof (intro allI impI)
  fix i
  assume a: "i \<in> set (activeTimers s') \<or> i \<in> periodicPending s'
             \<or> driverLocationInterval s' = Some i"
  have g: "timersGrow s s'" by (rule step_timersGrow [OF st])
  have p: "periodicPending s' \<subseteq> periodicPending s \<union> set (activeTimers s)"
    by (rule step_pending [OF st])
  have old_or_new:
    "(i \<in> set (activeTimers s) \<or> i \<in> periodicPending s \<or> driverLocationInterval s = Some i)
     \<or> (nextTimer s \<le> i \<and> i < nextTimer s')"
    using a g p unfolding timersGrow_def by auto
  then show "i < nextTimer s' \<and> permissionCheckComplete s'"
  proof
    assume "i \<in> set (activeTimers s) \<or> i \<in> periodicPending s
            \<or> driverLocationInterval s = Some i"
    with inv have "i < nextTimer s \<and> permissionCheckComplete s"
      unfolding timerInv_def by blast
    with g show ?thesis unfolding timersGrow_def by auto
  next
    assume "nextTimer s \<le> i \<and> i < nextTimer s'"
    with g show ?thesis unfolding timersGrow_def by auto
  qed
qed

lemma mount_timerInv: "timerInv (mountDashboard u geo now store)"
  by (auto simp: timerInv_def periodicPending_def mountDashboard_def pageLoad_def handler_defs
      split: option.splits)

lemma run_timerInv: "run es s = Some s' \<Longrightarrow> timerInv s \<Longrightarrow> timerInv s'"
  by (induction es arbitrary: s) (auto split: option.splits dest: step_timerInv)

text \<open>A cleared interval stays cleared: handles are never reused.\<close>

lemma step_cleared:
  assumes "step e s = Some s'" and "i < nextTimer s" and "i \<notin> set (activeTimers s)"
  shows "i < nextTimer s' \<and> i \<notin> set (activeTimers s')"
  using step_timersGrow [OF assms(1)] assms(2,3) unfolding timersGrow_def by auto

lemma run_cleared:
  "run es s = Some s' \<Longrightarrow> i < nextTimer s \<Longrightarrow> i \<notin> set (activeTimers s)
     \<Longrightarrow> i < nextTimer s' \<and> i \<notin> set (activeTimers s')"
proof (induction es arbitrary: s)
  case Nil
  then show ?case by simp
next
  case (Cons e es)
  from Cons.prems(1) obtain z where z: "step e s = Some z" and r: "run es z = Some s'"
    by (auto split: option.splits)
  from step_cleared [OF z Cons.prems(2,3)] Cons.IH [OF r] show ?case by blast
qed

lemma run_append:
  "run (es1 @ es2) s = (case run es1 s of None \<Rightarrow> None | Some z \<Rightarrow> run es2 z)"
  by (induction es1 arbitrary: s) (auto split: option.splits)

text \<open>If a session has started a timer, some earlier state of it had the permission
  granted.\<close>

lemma run_opened:
  "run es s0 = Some s \<Longrightarrow> nextTimer s0 < nextTimer s \<Longrightarrow>
     \<exists>es1 es2 z. es = es1 @ es2 \<and> run es1 s0 = Some z \<and> locationPermissionGranted z"
proof (induction es arbitrary: s rule: rev_induct)
  case Nil
  then show ?case by simp
next
  case (snoc e es)
  from snoc.prems(1) obtain z where z: "run es s0 = Some z" and st: "step e z = Some s"
    by (auto simp: run_append split: option.splits)
  show ?case
  proof (cases "nextTimer s0 < nextTimer z")
    case True
    from snoc.IH [OF z True] obtain es1 es2 y where
      "es = es1 @ es2" "run es1 s0 = Some y" "locationPermissionGranted y" by blast
    then have "es @ [e] = es1 @ (es2 @ [e])" by simp
    with \<open>run es1 s0 = Some y\<close> \<open>locationPermissionGranted y\<close> show ?thesis by blast
  next
    case False
    with snoc.prems(2) have "nextTimer z < nextTimer s" by simp
    with step_timersGrow [OF st] have "locationPermissionGranted s"
      unfolding timersGrow_def by blast
    moreover have "es @ [e] = (es @ [e]) @ []" by simp
    ultimately show ?thesis using snoc.prems(1) by blast
  qed
qed


lemmas session_defs =
  step_def pageLoad_def mountDashboard_def without_def recentGrant_def
  userLocationKey_def userLocationTimeKey_def Let_def

lemmas sample_defs = samplePosition_def sampleMount_def

lemma key_distinct [simp]:
  "userLocationKey u \<noteq> userLocationTimeKey v"
  "userLocationTimeKey v \<noteq> userLocationKey u"
  "userLocationKey u \<noteq> ''token''" "userLocationKey u \<noteq> ''user''"
  "userLocationKey u \<noteq> ''redirectAfterLogin''"
  "userLocationKey u \<noteq> ''driverLocationPermission''"
  "userLocationKey u \<noteq> ''driverLocationPermissionTime''"
  "userLocationTimeKey u \<noteq> ''token''" "userLocationTimeKey u \<noteq> ''user''"
  "userLocationTimeKey u \<noteq> ''redirectAfterLogin''"
  "userLocationTimeKey u \<noteq> ''driverLocationPermission''"
  "userLocationTimeKey u \<noteq> ''driverLocationPermissionTime''"
  by (simp_all add: userLocationKey_def userLocationTimeKey_def)

lemma run_openSession:
  "run [GeoResult 0 (Inr samplePosition), FetchDone True] sampleMount = Some openSession"
  by (simp add: openSession_def sample_defs session_defs handler_defs render_defs)

lemma run_trackingSession:
  "run [GeoResult 0 (Inr samplePosition), FetchDone True, TimerFire 1] sampleMount
     = Some trackingSession"
  by (simp add: trackingSession_def sample_defs session_defs handler_defs render_defs)

lemma nextTimer_mount: "nextTimer (mountDashboard u geo now store) = 1"
  by (simp add: mountDashboard_def pageLoad_def handler_defs split: option.splits)

subsection \<open>The gate and the rendered view\<close>

text \<open>
  Claim C1. In every state a session reaches after the dashboard is mounted: the
  dashboard content is rendered only when the permission check has completed and the
  dashboard is not blocked (and then the permission is granted); while the check is not
  complete or the dashboard is blocked, the view is the spinner or the blocking page
  with the modal open; and if the dashboard data has been requested at all, then some
  earlier state of the session had the location permission granted.
\<close>

theorem content_only_when_gate_open:
  assumes "run es (mountDashboard u geo now store) = Some s"
  shows "(isContent (render s) \<longrightarrow>
            permissionCheckComplete s \<and> \<not> dashboardBlocked s \<and> locationPermissionGranted s)
       \<and> (\<not> permissionCheckComplete s \<or> dashboardBlocked s \<longrightarrow>
            render s = Spinner \<or> render s = BlockedPage True)
       \<and> (0 < fetchesStarted s \<longrightarrow>
            (\<exists>es1 es2 z. es = es1 @ es2
               \<and> run es1 (mountDashboard u geo now store) = Some z
               \<and> locationPermissionGranted z))"
proof -
  have f: "flagsInv s" by (rule run_flagsInv [OF assms mount_flagsInv])
  have p: "openedInv s" by (rule run_openedInv [OF assms mount_openedInv])
  have c1: "isContent (render s) \<longrightarrow>
      permissionCheckComplete s \<and> \<not> dashboardBlocked s \<and> locationPermissionGranted s"
    using f by (auto simp: flagsInv_def render_def isContent_def split: if_splits)
  have c2: "\<not> permissionCheckComplete s \<or> dashboardBlocked s \<longrightarrow>
      render s = Spinner \<or> render s = BlockedPage True"
    using f by (auto simp: flagsInv_def render_def)
  have c3: "0 < fetchesStarted s \<longrightarrow>
      (\<exists>es1 es2 z. es = es1 @ es2 \<and> run es1 (mountDashboard u geo now store) = Some z
         \<and> locationPermissionGranted z)"
  proof
    assume "0 < fetchesStarted s"
    with p have "1 < nextTimer s" by (simp add: openedInv_def)
    then have "nextTimer (mountDashboard u geo now store :: 'a state) < nextTimer s"
      by (simp add: nextTimer_mount)
    from run_opened [OF assms this] show
      "\<exists>es1 es2 z. es = es1 @ es2 \<and> run es1 (mountDashboard u geo now store) = Some z
         \<and> locationPermissionGranted z" .
  qed
  from c1 c2 c3 show ?thesis by blast
qed

text \<open>
  On the sample session whose first probe succeeded and whose data has loaded, the
  content is rendered, and the session passed through a state with the permission
  granted.
\<close>

theorem content_only_when_gate_open_witness:
  "isContent (render openSession) \<and> permissionCheckComplete openSession
   \<and> \<not> dashboardBlocked openSession \<and> locationPermissionGranted openSession
   \<and> 0 < fetchesStarted openSession
   \<and> (\<exists>es1 es2 z. [GeoResult 0 (Inr samplePosition), FetchDone True] = es1 @ es2
         \<and> run es1 sampleMount = Some z \<and> locationPermissionGranted z)"
proof -
  have c: "isContent (render openSession)" and n: "0 < fetchesStarted openSession"
    by (simp_all add: openSession_def sample_defs session_defs handler_defs render_defs)
  from content_only_when_gate_open [OF run_openSession [unfolded sampleMount_def]] c n
  show ?thesis unfolding sampleMount_def by blast
qed

subsection \<open>The periodic reporter\<close>

text \<open>
  Claim C2. When a position request of the periodic reporter fails with
  \<open>PERMISSION_DENIED\<close>: the interval whose tick issued the request is cleared, both
  consent keys of the user are removed from the store, the dashboard is blocked with the
  modal opened (the blocking page is the view once the dashboard data has loaded), an
  error toast explains it, and in no later state of the session is that interval
  scheduled or able to fire.
\<close>

theorem denied_tick_stops_timer_and_blocks:
  assumes "run es (mountDashboard u geo now store) = Some s"
    and "k < length (pendingGeo s)"
    and "fst (pendingGeo s ! k) = PeriodicProbe i"
  shows "\<exists>s'. step (GeoResult k (Inl PERMISSION_DENIED)) s = Some s'
          \<and> i \<notin> set (activeTimers s')
          \<and> storage s' (userLocationKey (user s)) = None
          \<and> storage s' (userLocationTimeKey (user s)) = None
          \<and> dashboardBlocked s' \<and> showLocationModal s' \<and> \<not> locationPermissionGranted s'
          \<and> (\<not> loading s \<longrightarrow> render s' = BlockedPage True)
          \<and> toasts s' = toasts s
               @ [ToastError ''Location access was disabled. Please re-enable to stay online.'']
          \<and> (\<forall>es' s''. run es' s' = Some s'' \<longrightarrow>
                i \<notin> set (activeTimers s'') \<and> step (TimerFire i) s'' = None)"
proof -
  define z where "z = periodicError PERMISSION_DENIED i (s\<lparr>pendingGeo := without k (pendingGeo s)\<rparr>)"
  define s' where "s' = postRender s z"
  have inv: "timerInv s" by (rule run_timerInv [OF assms(1) mount_timerInv])
  have "(PeriodicProbe i, snd (pendingGeo s ! k)) \<in> set (pendingGeo s)"
    using assms(2,3) by (metis nth_mem prod.collapse)
  then have "i \<in> periodicPending s" by (auto simp: periodicPending_def)
  with inv have lt: "i < nextTimer s" and pcc: "permissionCheckComplete s"
    unfolding timerInv_def by blast+
  have st: "step (GeoResult k (Inl PERMISSION_DENIED)) s = Some s'"
    using assms(2,3) by (simp add: step_def s'_def z_def)
  have fields:
    "i \<notin> set (activeTimers s')" "nextTimer s' = nextTimer s"
    "storage s' (userLocationKey (user s)) = None"
    "storage s' (userLocationTimeKey (user s)) = None"
    "dashboardBlocked s'" "showLocationModal s'" "\<not> locationPermissionGranted s'"
    "permissionCheckComplete s' = permissionCheckComplete s" "loading s' = loading s"
    "toasts s' = toasts s
       @ [ToastError ''Location access was disabled. Please re-enable to stay online.'']"
    by (simp_all add: s'_def z_def postRender_frame periodicError_def console_log_def
        toast_error_def clearInterval_def removeItem_def)
  have view: "\<not> loading s \<longrightarrow> render s' = BlockedPage True"
    using pcc fields by (simp add: render_def)
  have later: "\<forall>es' s''. run es' s' = Some s'' \<longrightarrow>
      i \<notin> set (activeTimers s'') \<and> step (TimerFire i) s'' = None"
  proof (intro allI impI)
    fix es' s''
    assume r: "run es' s' = Some s''"
    from lt fields(2) have "i < nextTimer s'" by simp
    from run_cleared [OF r this fields(1)] have "i \<notin> set (activeTimers s'')" by simp
    then show "i \<notin> set (activeTimers s'') \<and> step (TimerFire i) s'' = None"
      by (simp add: step_def)
  qed
  from st fields view later show ?thesis by blast
qed

text \<open>
  On the sample session with one periodic request in flight: its denial leaves no
  interval scheduled, blocks the dashboard behind the open modal, and interval 1 cannot
  fire.
\<close>

theorem denied_tick_stops_timer_and_blocks_witness:
  "map_option (\<lambda>s. (activeTimers s, dashboardBlocked s, showLocationModal s, render s))
     (step (GeoResult 0 (Inl PERMISSION_DENIED)) trackingSession)
     = Some ([], True, True, BlockedPage True)
   \<and> (\<exists>s'. step (GeoResult 0 (Inl PERMISSION_DENIED)) trackingSession = Some s'
         \<and> step (TimerFire 1) s' = None)"
proof -
  have k: "0 < length (pendingGeo trackingSession)"
    and r: "fst (pendingGeo trackingSession ! 0) = PeriodicProbe 1"
    by (simp_all add: trackingSession_def sample_defs session_defs handler_defs render_defs)
  from denied_tick_stops_timer_and_blocks
         [OF run_trackingSession [unfolded sampleMount_def] k r]
  obtain s' where s': "step (GeoResult 0 (Inl PERMISSION_DENIED)) trackingSession = Some s'"
    "1 \<notin> set (activeTimers s')" "dashboardBlocked s'" "showLocationModal s'"
    "\<not> loading trackingSession \<longrightarrow> render s' = BlockedPage True"
    "\<forall>es' s''. run es' s' = Some s'' \<longrightarrow>
       1 \<notin> set (activeTimers s'') \<and> step (TimerFire 1) s'' = None"
    by blast
  have "run [] s' = Some s'" by simp
  with s'(6) have f: "step (TimerFire 1) s' = None" by blast
  have ev: "map_option (\<lambda>s. (activeTimers s, dashboardBlocked s, showLocationModal s, render s))
      (step (GeoResult 0 (Inl PERMISSION_DENIED)) trackingSession)
      = Some ([], True, True, BlockedPage True)"
    by (simp add: trackingSession_def sample_defs session_defs handler_defs render_defs)
  from ev s'(1) f show ?thesis by blast
qed

lemmas eval_defs = sample_defs session_defs handler_defs render_defs

lemma parse_sample: "parseInt ''1700000000000'' = Some 1700000000000"
  by (simp add: parseInt_def js_whitespace_def radix_digit_def digit_of_def digits_value_def)

lemma show_nat_1000: "show_nat 1000 = ''1000''"
  by code_simp

lemma parse_1000: "parseInt ''1000'' = Some 1000"
  by (simp add: parseInt_def js_whitespace_def radix_digit_def digit_of_def digits_value_def)

lemma parseInt_empty: "parseInt [] = None"
  by (simp add: parseInt_def)

subsection \<open>The choice of the probe on mount\<close>

text \<open>
  Claim C5. On a runtime with geolocation, mounting issues exactly one position request.
  It is the silent probe (high accuracy, 5 second timeout, fixes up to 5 minutes old)
  exactly when the stored status is granted and the age of the stored record is under
  seven days. When the status is not granted, or there is no record age, or the age is
  seven days or more, it is the full probe (low accuracy, 8 second timeout).
\<close>
theorem silent_probe_exactly_when_fresh:
  assumes "hasGeolocation s"
  shows "(storage s (userLocationKey (user s)) = Some ''granted'' \<and>
          consentAge s = Some age \<and> age < sevenDays \<longrightarrow>
            pendingGeo (checkLocationPermissionStatus s)
              = pendingGeo s @ [(SilentProbe age,
                  \<lparr>enableHighAccuracy = True, timeout = 5000, maximumAge = 300000\<rparr>)])
       \<and> (storage s (userLocationKey (user s)) \<noteq> Some ''granted''
            \<or> consentAge s = None
            \<or> (\<exists>a. consentAge s = Some a \<and> sevenDays \<le> a) \<longrightarrow>
            pendingGeo (checkLocationPermissionStatus s)
              = pendingGeo s @ [(FullProbe,
                  \<lparr>enableHighAccuracy = False, timeout = 8000, maximumAge = 300000\<rparr>)])"
  using assms
  by (auto simp: checkLocationPermissionStatus_def recentGrant_def getCurrentPosition_def
      silentOptions_def firstTimeOptions_def consentAge_def parseInt_empty split: option.splits)

text \<open>
  A consent granted ten minutes ago gives the silent probe; one granted exactly seven
  days ago gives the full probe.
\<close>

theorem silent_probe_exactly_when_fresh_witness:
  "pendingGeo (checkLocationPermissionStatus freshConsentPage)
     = [(SilentProbe 600000,
         \<lparr>enableHighAccuracy = True, timeout = 5000, maximumAge = 300000\<rparr>)]
   \<and> pendingGeo (checkLocationPermissionStatus staleConsentPage)
     = [(FullProbe, \<lparr>enableHighAccuracy = False, timeout = 8000, maximumAge = 300000\<rparr>)]"
proof -
  have g1: "hasGeolocation freshConsentPage" and g2: "hasGeolocation staleConsentPage"
    by (simp_all add: freshConsentPage_def staleConsentPage_def pageLoad_def)
  have a1: "consentAge freshConsentPage = Some 600000"
    by (simp add: consentAge_def freshConsentPage_def pageLoad_def parse_sample)
  have a2: "consentAge staleConsentPage = Some 604800000"
    by (simp add: consentAge_def staleConsentPage_def pageLoad_def parse_sample)
  have k1: "storage freshConsentPage (userLocationKey (user freshConsentPage)) = Some ''granted''"
    by (simp add: freshConsentPage_def pageLoad_def)
  have p1: "pendingGeo freshConsentPage = []" and p2: "pendingGeo staleConsentPage = []"
    by (simp_all add: freshConsentPage_def staleConsentPage_def pageLoad_def)
  from silent_probe_exactly_when_fresh [OF g1, of 600000]
       silent_probe_exactly_when_fresh [OF g2, of 0] a1 a2 k1 p1 p2
  show ?thesis by (simp add: sevenDays_def)
qed

subsection \<open>Transient failures of the periodic reporter\<close>

text \<open>
  Claim C8. When a position request of the periodic reporter fails with any error other
  than \<open>PERMISSION_DENIED\<close>, the state changes only by the request leaving the queue
  and one console line: the scheduled intervals and the global handle are as before, so
  the interval fires again; the gate cells and the view are as before; the store and the
  toasts are unchanged.
\<close>
theorem transient_failure_only_logged:
  assumes "k < length (pendingGeo s)"
    and "fst (pendingGeo s ! k) = PeriodicProbe i"
    and "err \<noteq> PERMISSION_DENIED"
  shows "\<exists>s'. step (GeoResult k (Inl err)) s = Some s'
          \<and> s' = s\<lparr>pendingGeo := without k (pendingGeo s),
                    console := console s @ [''Live location tracking error:'']\<rparr>
          \<and> activeTimers s' = activeTimers s
          \<and> driverLocationInterval s' = driverLocationInterval s
          \<and> dashboardBlocked s' = dashboardBlocked s
          \<and> showLocationModal s' = showLocationModal s
          \<and> locationPermissionGranted s' = locationPermissionGranted s
          \<and> render s' = render s
          \<and> storage s' = storage s
          \<and> toasts s' = toasts s
          \<and> (i \<in> set (activeTimers s) \<longrightarrow> step (TimerFire i) s' \<noteq> None)"
  using assms
  by (simp add: step_def periodicError_def console_log_def intervalTick_def
      getCurrentPosition_def render_defs)

text \<open>
  On the sample session with one periodic request in flight: a timeout leaves interval 1
  scheduled and able to fire, the dashboard open and the store as it was.
\<close>

theorem transient_failure_only_logged_witness:
  "map_option (\<lambda>s. (activeTimers s, dashboardBlocked s, showLocationModal s, storage s = storage trackingSession))
     (step (GeoResult 0 (Inl TIMEOUT)) trackingSession) = Some ([1], False, False, True)
   \<and> (\<exists>s'. step (GeoResult 0 (Inl TIMEOUT)) trackingSession = Some s'
         \<and> step (TimerFire 1) s' \<noteq> None)"
proof -
  have k: "0 < length (pendingGeo trackingSession)"
    and r: "fst (pendingGeo trackingSession ! 0) = PeriodicProbe 1"
    and a: "activeTimers trackingSession = [1]"
    and b: "\<not> dashboardBlocked trackingSession" "\<not> showLocationModal trackingSession"
    by (simp_all add: trackingSession_def eval_defs)
  have e: "TIMEOUT \<noteq> PERMISSION_DENIED" by simp
  from transient_failure_only_logged [OF k r e] a b
  show ?thesis by auto
qed

subsection \<open>Failure of the first-time probe\<close>

text \<open>
  Claim C6, as stated, asks for the time key to be written with the current time when
  the first-time probe fails. On a page with an empty store the failure handler writes
  the status \<open>denied\<close> and no time.
\<close>
theorem first_probe_failure_time_key_counterexample:
  "map_option (\<lambda>s. (storage s (userLocationKey (Some (NumId 7))),
                     storage s (userLocationTimeKey (Some (NumId 7)))))
     (step (GeoResult 0 (Inl PERMISSION_DENIED)) sampleMount)
   = Some (Some ''denied'', None)"
  by (simp add: eval_defs)

text \<open>
  Claim C6, amended. When the first-time probe fails, with whatever error, the status
  key of the user is set to \<open>denied\<close> and nothing else in the store changes (the
  time key keeps the value it had), and the gate is blocked: the dashboard is blocked,
  the modal is opened, the permission is not granted and the check is complete.
\<close>

theorem first_probe_failure_records_denied:
  assumes "k < length (pendingGeo s)" and "fst (pendingGeo s ! k) = FullProbe"
  shows "\<exists>s'. step (GeoResult k (Inl err)) s = Some s'
          \<and> storage s' = (storage s)(userLocationKey (user s) \<mapsto> ''denied'')
          \<and> storage s' (userLocationTimeKey (user s)) = storage s (userLocationTimeKey (user s))
          \<and> dashboardBlocked s' \<and> showLocationModal s'
          \<and> \<not> locationPermissionGranted s' \<and> permissionCheckComplete s'"
  using assms
  by (simp add: step_def postRender_frame fullError_def setItem_def console_log_def)

text \<open>
  On the sample page, a timeout of the first-time probe leaves the store holding the
  denied status only.
\<close>

theorem first_probe_failure_records_denied_witness:
  "(\<exists>s'. step (GeoResult 0 (Inl TIMEOUT)) sampleMount = Some s'
      \<and> storage s' = [userLocationKey (Some (NumId 7)) \<mapsto> ''denied'']
      \<and> dashboardBlocked s' \<and> showLocationModal s')"
proof -
  have k: "0 < length (pendingGeo sampleMount)"
    and r: "fst (pendingGeo sampleMount ! 0) = FullProbe"
    and u: "user sampleMount = Some (NumId 7)" and st: "storage sampleMount = Map.empty"
    by (simp_all add: eval_defs handler_defs)
  from first_probe_failure_records_denied [OF k r, of TIMEOUT] u st
  show ?thesis by auto
qed

subsection \<open>The manual update\<close>

text \<open>
  Claim C7. The "Update Location" button exists in the content view only, and in every
  state a session reaches the content view has a location in memory. So every
  invocation of the manual update finds a location in memory and pushes exactly it; the
  case of an invocation with no location in memory does not arise. The invocation
  issues no position request and leaves the scheduled intervals, the next handle and the
  global handle as they were, and so does the continuation that handles the response.
\<close>

theorem manual_update_pushes_location_in_memory:
  assumes "run es (mountDashboard u geo now store) = Some s"
    and "step ClickUpdateLocation s = Some s'"
  shows "(\<exists>l. currentLocation s = Some l
            \<and> posts s' = posts s @ [\<lparr>lat = lat l, lng = lng l\<rparr>])
       \<and> pendingGeo s' = pendingGeo s
       \<and> activeTimers s' = activeTimers s
       \<and> nextTimer s' = nextTimer s
       \<and> driverLocationInterval s' = driverLocationInterval s
       \<and> (\<forall>ok s''. step (UpdateDone ok) s' = Some s'' \<longrightarrow>
             posts s'' = posts s' \<and> pendingGeo s'' = pendingGeo s'
             \<and> activeTimers s'' = activeTimers s' \<and> nextTimer s'' = nextTimer s'
             \<and> driverLocationInterval s'' = driverLocationInterval s')"
proof -
  have inv: "locationInv s" by (rule run_locationInv [OF assms(1) mount_locationInv])
  from assms(2) have click: "mounted s" "isContent (render s)"
    and d: "dispatch ClickUpdateLocation s = Some (updateLocation s)"
    and s': "s' = postRender s (updateLocation s)"
    by (auto simp: step_def split: if_splits)
  from click(2) have "\<not> dashboardBlocked s"
    by (auto simp: render_def isContent_def split: if_splits)
  with inv obtain l where l: "currentLocation s = Some l"
    unfolding locationInv_def by auto
  have u: "updateLocation s
      = s\<lparr>locationLoading := True,
          posts := posts s @ [\<lparr>lat = lat l, lng = lng l\<rparr>],
          pendingUpdate := Suc (pendingUpdate s)\<rparr>"
    by (simp add: updateLocation_def l)
  have same: "s' = updateLocation s"
    by (simp add: s' u render_defs)
  have now: "posts s' = posts s @ [\<lparr>lat = lat l, lng = lng l\<rparr>]"
    "pendingGeo s' = pendingGeo s" "activeTimers s' = activeTimers s"
    "nextTimer s' = nextTimer s" "driverLocationInterval s' = driverLocationInterval s"
    by (simp_all add: same u)
  have later: "\<forall>ok s''. step (UpdateDone ok) s' = Some s'' \<longrightarrow>
             posts s'' = posts s' \<and> pendingGeo s'' = pendingGeo s'
             \<and> activeTimers s'' = activeTimers s' \<and> nextTimer s'' = nextTimer s'
             \<and> driverLocationInterval s'' = driverLocationInterval s'"
    by (auto simp: step_def updateLocationDone_def toast_success_def toast_error_def
        render_defs split: if_splits)
  from l now later show ?thesis by blast
qed

text \<open>
  On the open sample session the button can be pressed; the press pushes the location
  in memory a second time and leaves interval 1 as the only one.
\<close>

theorem manual_update_pushes_location_in_memory_witness:
  "(\<exists>s'. step ClickUpdateLocation openSession = Some s'
      \<and> posts s' = [\<lparr>lat = 3, lng = 4\<rparr>, \<lparr>lat = 3, lng = 4\<rparr>]
      \<and> activeTimers s' = [1] \<and> nextTimer s' = 2 \<and> pendingGeo s' = [])"
proof -
  have c: "currentLocation openSession = Some \<lparr>lat = 3, lng = 4\<rparr>"
    and p: "posts openSession = [\<lparr>lat = 3, lng = 4\<rparr>]"
    and a: "activeTimers openSession = [1]" "nextTimer openSession = 2"
           "pendingGeo openSession = []"
    by (simp_all add: openSession_def eval_defs)
  have "step ClickUpdateLocation openSession \<noteq> None"
    by (simp add: openSession_def eval_defs updateLocation_def)
  then obtain s' where s': "step ClickUpdateLocation openSession = Some s'" by auto
  from manual_update_pushes_location_in_memory
         [OF run_openSession [unfolded sampleMount_def] s'] c p a s'
  show ?thesis by auto
qed

subsection \<open>The pushed coordinates\<close>
lemma geoCallback_posts:
  "posts (geoCallback r (Inr p) s) = posts s @ [\<lparr>lat = latitude p, lng = longitude p\<rparr>]"
  by (cases r) (simp_all add: handler_defs Let_def)

lemma geoCallback_currentLocation:
  "\<forall>c. r \<noteq> ModalProbe c \<Longrightarrow>
     currentLocation (geoCallback r (Inr p) s) = Some \<lparr>lat = latitude p, lng = longitude p\<rparr>"
  by (cases r) (simp_all add: handler_defs Let_def)

text \<open>
  Claim C9. Whatever request a position answers (the silent or the full probe of the
  gate, a periodic probe, a probe of the modal), the body pushed on its success has
  exactly the latitude and longitude of the position, and for the probes of the
  dashboard the location kept in memory has them too. The location-enabled handler (from
  the modal's button or its callback) and the manual update push exactly the location
  they are given or find in memory.
\<close>

theorem push_preserves_coordinates:
  "(k < length (pendingGeo s) \<longrightarrow>
      (\<exists>s'. step (GeoResult k (Inr p)) s = Some s'
         \<and> posts s' = posts s @ [\<lparr>lat = latitude p, lng = longitude p\<rparr>]
         \<and> ((\<forall>c. fst (pendingGeo s ! k) \<noteq> ModalProbe c) \<longrightarrow>
              currentLocation s' = Some \<lparr>lat = latitude p, lng = longitude p\<rparr>)))
   \<and> posts (handleLocationEnabled (Some l) s) = posts s @ [\<lparr>lat = lat l, lng = lng l\<rparr>]
   \<and> posts (modalSendLocationUpdateDone Granted l True s) = posts s @ [\<lparr>lat = lat l, lng = lng l\<rparr>]
   \<and> (currentLocation s = Some l \<longrightarrow>
        posts (updateLocation s) = posts s @ [\<lparr>lat = lat l, lng = lng l\<rparr>])"
  by (simp add: step_def postRender_frame geoCallback_posts geoCallback_currentLocation
      handleLocationEnabled_def modalSendLocationUpdateDone_def startLiveLocationTracking_def
      sendLocationUpdate_def toast_success_def setItem_def updateLocation_def)

text \<open>
  On the sample session a periodic fix at (5, 6) is pushed and kept as (5, 6), and the
  manual update of the open session pushes (3, 4).
\<close>

theorem push_preserves_coordinates_witness:
  "map_option posts (step (GeoResult 0 (Inr otherPosition)) trackingSession)
     = Some [\<lparr>lat = 3, lng = 4\<rparr>, \<lparr>lat = 5, lng = 6\<rparr>]
   \<and> map_option currentLocation (step (GeoResult 0 (Inr otherPosition)) trackingSession)
     = Some (Some \<lparr>lat = 5, lng = 6\<rparr>)
   \<and> posts (updateLocation openSession) = [\<lparr>lat = 3, lng = 4\<rparr>, \<lparr>lat = 3, lng = 4\<rparr>]"
proof -
  have k: "0 < length (pendingGeo trackingSession)"
    and r: "fst (pendingGeo trackingSession ! 0) = PeriodicProbe 1"
    and p: "posts trackingSession = [\<lparr>lat = 3, lng = 4\<rparr>]"
    by (simp_all add: trackingSession_def eval_defs)
  have c: "currentLocation openSession = Some \<lparr>lat = 3, lng = 4\<rparr>"
    and q: "posts openSession = [\<lparr>lat = 3, lng = 4\<rparr>]"
    by (simp_all add: openSession_def eval_defs)
  note t1 = push_preserves_coordinates
    [where k = 0 and s = trackingSession and p = otherPosition and l = "\<lparr>lat = 3, lng = 4\<rparr>"]
  note t2 = push_preserves_coordinates
    [where k = 0 and s = openSession and p = otherPosition and l = "\<lparr>lat = 3, lng = 4\<rparr>"]
  from t1 k r p obtain s' where
    "step (GeoResult 0 (Inr otherPosition)) trackingSession = Some s'"
    "posts s' = [\<lparr>lat = 3, lng = 4\<rparr>, \<lparr>lat = 5, lng = 6\<rparr>]"
    "currentLocation s' = Some \<lparr>lat = 5, lng = 6\<rparr>"
    by (auto simp: otherPosition_def)
  moreover from t2 c q have
    "posts (updateLocation openSession) = [\<lparr>lat = 3, lng = 4\<rparr>, \<lparr>lat = 3, lng = 4\<rparr>]"
    by simp
  ultimately show ?thesis by simp
qed

subsection \<open>Logging out\<close>

text \<open>
  Claim C10, as stated, asks that after logging out and in again the gate always takes
  the full probe. Driver 7 logs out while the first probe is in flight, which removes
  the keys; the probe then succeeds and its callback, a closure over the keys of driver
  7, stores the grant again; a minute later driver 7 has logged in again and the mount
  issues the silent probe.
\<close>

theorem logout_with_probe_in_flight_counterexample:
  "authUser sampleMount = Some (NumId 7)
   \<and> storage (logout sampleMount) (userLocationKey (Some (NumId 7))) = None
   \<and> storage logoutDuringProbe (userLocationKey (Some (NumId 7))) = Some ''granted''
   \<and> pendingGeo (mountDashboard (Some (NumId 7)) True 61000
         (storage (loginSuccess ''t'' (Some (NumId 7)) ''u'' logoutDuringProbe)) :: int state)
       = [(SilentProbe 60000,
           \<lparr>enableHighAccuracy = True, timeout = 5000, maximumAge = 300000\<rparr>)]"
  by (simp add: logoutDuringProbe_def logout_def loginSuccess_def eval_defs
      show_nat_1000 parse_1000 sevenDays_def silentOptions_def)

text \<open>
  Claim C10, amended. Logging out a user whose id is truthy clears the interval whose
  handle is in the global and resets the global, and removes both consent keys of the
  user and the two legacy keys; a mount that follows the logout and the next login of
  that user with no write to the store in between (on a runtime with geolocation,
  whatever the time) issues the full probe, whatever consent was stored before. Logging
  out cancels no request in flight: a first-time probe of the dashboard that succeeds
  after the logout stores the grant under the key of the user the dashboard was
  mounted for.
\<close>

theorem logout_clears_timer_and_consent:
  assumes "truthy_id (authUser (s :: 'c state))"
  shows "driverLocationInterval (logout s) = None
       \<and> (\<forall>i. driverLocationInterval s = Some i \<longrightarrow> i \<notin> set (activeTimers (logout s)))
       \<and> storage (logout s) (userLocationKey (authUser s)) = None
       \<and> storage (logout s) (userLocationTimeKey (authUser s)) = None
       \<and> storage (logout s) ''driverLocationPermission'' = None
       \<and> storage (logout s) ''driverLocationPermissionTime'' = None
       \<and> pendingGeo (mountDashboard (authUser s) True now
                       (storage (loginSuccess newToken (authUser s) userJson (logout s)))
                     :: 'c state)
           = [(FullProbe, \<lparr>enableHighAccuracy = False, timeout = 8000, maximumAge = 300000\<rparr>)]
       \<and> (\<forall>k p. k < length (pendingGeo s) \<and> fst (pendingGeo s ! k) = FullProbe \<longrightarrow>
             (\<exists>s'. step (GeoResult k (Inr p)) (logout s) = Some s'
                \<and> storage s' (userLocationKey (user s)) = Some ''granted''))"
proof -
  have t: "driverLocationInterval (logout s) = None
       \<and> (\<forall>i. driverLocationInterval s = Some i \<longrightarrow> i \<notin> set (activeTimers (logout s)))"
    by (simp add: logout_def Let_def removeItem_def clearInterval_def split: option.splits)
  have k: "storage (logout s) (userLocationKey (authUser s)) = None"
       "storage (logout s) (userLocationTimeKey (authUser s)) = None"
       "storage (logout s) ''driverLocationPermission'' = None"
       "storage (logout s) ''driverLocationPermissionTime'' = None"
    using assms
    by (simp_all add: logout_def Let_def removeItem_def clearInterval_def split: option.splits)
  have l: "storage (loginSuccess newToken (authUser s) userJson (logout s))
             (userLocationKey (authUser s)) = None"
    using k(1) by (simp add: loginSuccess_def Let_def setItem_def removeItem_def split: option.splits)
  have m: "pendingGeo (mountDashboard (authUser s) True now
                       (storage (loginSuccess newToken (authUser s) userJson (logout s)))
                     :: 'c state)
           = [(FullProbe, \<lparr>enableHighAccuracy = False, timeout = 8000, maximumAge = 300000\<rparr>)]"
    using l
    by (simp add: mountDashboard_def pageLoad_def checkLocationPermissionStatus_def
        recentGrant_def getCurrentPosition_def firstTimeOptions_def split: option.splits)
  have q: "pendingGeo (logout s) = pendingGeo s" and u: "user (logout s) = user s"
    by (simp_all add: logout_def Let_def removeItem_def clearInterval_def split: option.splits)
  have late: "\<forall>k p. k < length (pendingGeo s) \<and> fst (pendingGeo s ! k) = FullProbe \<longrightarrow>
             (\<exists>s'. step (GeoResult k (Inr p)) (logout s) = Some s'
                \<and> storage s' (userLocationKey (user s)) = Some ''granted'')"
    by (simp add: step_def q u postRender_frame fullSuccess_def toast_success_def
        startLiveLocationTracking_def sendLocationUpdate_def setItem_def)
  from t k m late show ?thesis by blast
qed

text \<open>
  Logging driver 7 out of the tracking sample session clears interval 1 and the granted
  consent, and the mount after the next login issues the full probe.
\<close>

theorem logout_clears_timer_and_consent_witness:
  "driverLocationInterval (logout trackingSession) = None
   \<and> activeTimers (logout trackingSession) = []
   \<and> storage (logout trackingSession) (userLocationKey (Some (NumId 7))) = None
   \<and> storage (logout trackingSession) (userLocationTimeKey (Some (NumId 7))) = None
   \<and> storage trackingSession (userLocationKey (Some (NumId 7))) = Some ''granted''
   \<and> pendingGeo (mountDashboard (Some (NumId 7)) True 2000
         (storage (loginSuccess ''t'' (Some (NumId 7)) ''u'' (logout trackingSession))) :: int state)
       = [(FullProbe, \<lparr>enableHighAccuracy = False, timeout = 8000, maximumAge = 300000\<rparr>)]"
proof -
  have u: "authUser trackingSession = Some (NumId 7)"
    and h: "driverLocationInterval trackingSession = Some 1"
    and a: "activeTimers trackingSession = [1]"
    and g: "storage trackingSession (userLocationKey (Some (NumId 7))) = Some ''granted''"
    by (simp_all add: trackingSession_def eval_defs)
  have tr: "truthy_id (authUser trackingSession)" by (simp add: u)
  have e: "activeTimers (logout trackingSession) = []"
    using h a by (simp add: logout_def Let_def removeItem_def clearInterval_def)
  from logout_clears_timer_and_consent [OF tr, of 2000 "''t''" "''u''"] u e g
  show ?thesis by simp
qed

subsection \<open>More than one interval\<close>

text \<open>
  Claim C3 asks for at most one scheduled interval per mounted dashboard and none left
  after unmounting. \<open>startLiveLocationTracking\<close> overwrites the global handle without
  clearing the interval it held. After \<open>doubleStartTrace\<close> the mounted dashboard has
  intervals 3 and 4 scheduled; unmounting clears interval 4 only; interval 3 then fires
  and its position is pushed after the unmount.
\<close>
theorem double_start_orphans_timer:
  "map_option (\<lambda>s. (mounted s, activeTimers s, driverLocationInterval s))
     (run doubleStartTrace sampleMount) = Some (True, [3, 4], Some 4)
   \<and> map_option (\<lambda>s. (mounted s, activeTimers s, driverLocationInterval s, length (posts s)))
     (run (doubleStartTrace @ [Unmount]) sampleMount) = Some (False, [3], None, 6)
   \<and> map_option (\<lambda>s. (mounted s, length (posts s)))
     (run (doubleStartTrace @ [Unmount, TimerFire 3, GeoResult 0 (Inr otherPosition)]) sampleMount)
       = Some (False, 7)"
  by (simp add: doubleStartTrace_def otherPosition_def eval_defs)

subsection \<open>Callbacks after unmounting\<close>

text \<open>
  Claim C4, as stated, asks for no push after the dashboard is unmounted. In
  \<open>lateCallbackTrace\<close> the dashboard is unmounted while a periodic position request is
  in flight; when the request then succeeds, its position is pushed.
\<close>
theorem late_callback_pushes_after_unmount_counterexample:
  "map_option (\<lambda>s. (mounted s, activeTimers s, posts s)) (run lateCallbackTrace sampleMount)
     = Some (False, [], [\<lparr>lat = 3, lng = 4\<rparr>])
   \<and> map_option (\<lambda>s. (mounted s, posts s))
       (run (lateCallbackTrace @ [GeoResult 0 (Inr otherPosition)]) sampleMount)
     = Some (False, [\<lparr>lat = 3, lng = 4\<rparr>, \<lparr>lat = 5, lng = 6\<rparr>])"
  by (simp add: lateCallbackTrace_def otherPosition_def eval_defs)


text \<open>
  Claim C4, amended. Unmounting the dashboard clears the interval whose handle is in the
  global and resets the global; that interval is not scheduled and cannot fire in any
  later state, and unmounting itself pushes nothing. No callback checks that the
  dashboard is still mounted: a position request that succeeds after the unmount still
  pushes its coordinates.
\<close>

theorem unmount_clears_registered_interval:
  assumes "run es (mountDashboard u geo now store) = Some s" and "mounted s"
  shows "\<exists>s'. step Unmount s = Some s'
          \<and> \<not> mounted s' \<and> driverLocationInterval s' = None \<and> posts s' = posts s
          \<and> (\<forall>i. driverLocationInterval s = Some i \<longrightarrow>
                (\<forall>es' s''. run es' s' = Some s'' \<longrightarrow>
                   i \<notin> set (activeTimers s'') \<and> step (TimerFire i) s'' = None))
          \<and> (\<forall>k p. k < length (pendingGeo s') \<longrightarrow>
                (\<exists>s''. step (GeoResult k (Inr p)) s' = Some s''
                   \<and> posts s'' = posts s' @ [\<lparr>lat = latitude p, lng = longitude p\<rparr>]))"
proof -
  define s' where "s' = (unmountCleanup s)\<lparr>mounted := False\<rparr>"
  have inv: "timerInv s" by (rule run_timerInv [OF assms(1) mount_timerInv])
  have st: "step Unmount s = Some s'"
    using assms(2) by (simp add: step_def s'_def postRender_def)
  have fields: "\<not> mounted s'" "driverLocationInterval s' = None" "posts s' = posts s"
    "nextTimer s' = nextTimer s"
    by (simp_all add: s'_def unmountCleanup_def clearInterval_def split: option.splits)
  have stays: "\<forall>i. driverLocationInterval s = Some i \<longrightarrow>
      (\<forall>es' s''. run es' s' = Some s'' \<longrightarrow>
         i \<notin> set (activeTimers s'') \<and> step (TimerFire i) s'' = None)"
  proof (intro allI impI)
    fix i es' s''
    assume h: "driverLocationInterval s = Some i" and r: "run es' s' = Some s''"
    from inv h have "i < nextTimer s" unfolding timerInv_def by blast
    then have lt: "i < nextTimer s'" by (simp add: fields)
    have off: "i \<notin> set (activeTimers s')"
      using h by (simp add: s'_def unmountCleanup_def clearInterval_def)
    from run_cleared [OF r lt off] have "i \<notin> set (activeTimers s'')" by simp
    then show "i \<notin> set (activeTimers s'') \<and> step (TimerFire i) s'' = None"
      by (simp add: step_def)
  qed
  have late: "\<forall>k p. k < length (pendingGeo s') \<longrightarrow>
      (\<exists>s''. step (GeoResult k (Inr p)) s' = Some s''
         \<and> posts s'' = posts s' @ [\<lparr>lat = latitude p, lng = longitude p\<rparr>])"
    by (simp add: step_def postRender_frame geoCallback_posts)
  from st fields stays late show ?thesis by blast
qed

text \<open>
  Unmounting the tracking sample session clears interval 1, which can no longer fire,
  and the periodic request in flight still pushes (5, 6) when it succeeds.
\<close>

theorem unmount_clears_registered_interval_witness:
  "map_option (\<lambda>s. (mounted s, driverLocationInterval s, activeTimers s))
     (step Unmount trackingSession) = Some (False, None, [])
   \<and> (\<exists>s'. step Unmount trackingSession = Some s' \<and> step (TimerFire 1) s' = None
         \<and> (\<exists>s''. step (GeoResult 0 (Inr otherPosition)) s' = Some s''
               \<and> posts s'' = posts s' @ [\<lparr>lat = 5, lng = 6\<rparr>]))"
proof -
  have m: "mounted trackingSession"
    and h: "driverLocationInterval trackingSession = Some 1"
    by (simp_all add: trackingSession_def eval_defs)
  have ev: "map_option (\<lambda>s. (mounted s, driverLocationInterval s, activeTimers s, length (pendingGeo s)))
     (step Unmount trackingSession) = Some (False, None, [], 1)"
    by (simp add: trackingSession_def eval_defs)
  from unmount_clears_registered_interval
         [OF run_trackingSession [unfolded sampleMount_def] m]
  obtain s' where s': "step Unmount trackingSession = Some s'"
    "\<forall>i. driverLocationInterval trackingSession = Some i \<longrightarrow>
       (\<forall>es' s''. run es' s' = Some s'' \<longrightarrow>
          i \<notin> set (activeTimers s'') \<and> step (TimerFire i) s'' = None)"
    "\<forall>k p. k < length (pendingGeo s') \<longrightarrow>
       (\<exists>s''. step (GeoResult k (Inr p)) s' = Some s''
          \<and> posts s'' = posts s' @ [\<lparr>lat = latitude p, lng = longitude p\<rparr>])"
    by blast
  have "run [] s' = Some s'" by simp
  with s'(2) h have f: "step (TimerFire 1) s' = None" by blast
  from ev s'(1) have "0 < length (pendingGeo s')" by simp
  with s'(3) have "\<exists>s''. step (GeoResult 0 (Inr otherPosition)) s' = Some s''
      \<and> posts s'' = posts s' @ [\<lparr>lat = latitude otherPosition, lng = longitude otherPosition\<rparr>]"
    by blast
  then have l: "\<exists>s''. step (GeoResult 0 (Inr otherPosition)) s' = Some s''
      \<and> posts s'' = posts s' @ [\<lparr>lat = 5, lng = 6\<rparr>]"
    by (simp add: otherPosition_def)
  from ev s'(1) f l show ?thesis by auto
qed

end
